theory Spec2Isabelle
  imports Main "HOL-Library.AList" "HOL-Library.Sublist"
begin

section \<open>The bounded cache: class MemoryCache of src/utils/cache.js\<close>

text \<open>
  A JavaScript \<^verbatim>\<open>Map\<close> iterates in insertion order, \<^verbatim>\<open>Map.set\<close> on a key that is
  present replaces the value in place and on a new key appends, and \<^verbatim>\<open>Map.delete\<close>
  removes the key. That is an association list with \<^const>\<open>AList.update\<close>,
  \<^const>\<open>AList.delete\<close> and \<^const>\<open>map_of\<close>. Timestamps and durations are the
  integer milliseconds of \<^verbatim>\<open>Date.now()\<close>, which every operation takes as the
  argument \<open>now\<close>. An optional numeric argument is an \<open>int option\<close>, \<open>None\<close> for
  \<^verbatim>\<open>undefined\<close>.
\<close>

record 'v item =
  val :: 'v
  expiry :: int
  lastAccessed :: int

record stats =
  hits :: nat
  misses :: nat
  sets :: nat
  evictions :: nat

record 'v MemoryCache =
  cache :: "(string \<times> 'v item) list"
  ttl :: int
  maxSize :: int
  hitCount :: nat
  missCount :: nat
  stats :: stats

record options =
  opt_ttl :: "int option"
  opt_maxSize :: "int option"

text \<open>\<^verbatim>\<open>x || d\<close> on an optional number: \<^verbatim>\<open>undefined\<close> and \<^verbatim>\<open>0\<close> are falsy.\<close>

definition js_or :: "int option \<Rightarrow> int \<Rightarrow> int" where
  "js_or x d = (case x of None \<Rightarrow> d | Some n \<Rightarrow> if n \<noteq> 0 then n else d)"

definition zero_stats :: stats where
  "zero_stats = \<lparr>hits = 0, misses = 0, sets = 0, evictions = 0\<rparr>"

definition new_MemoryCache :: "options \<Rightarrow> 'v MemoryCache" where
  "new_MemoryCache opts =
     \<lparr>cache = [], ttl = js_or (opt_ttl opts) 60000, maxSize = js_or (opt_maxSize opts) 1000,
      hitCount = 0, missCount = 0, stats = zero_stats\<rparr>"

definition count_miss :: "'v MemoryCache \<Rightarrow> 'v MemoryCache" where
  "count_miss c = c\<lparr>stats := (stats c)\<lparr>misses := misses (stats c) + 1\<rparr>\<rparr>"

definition count_hit :: "'v MemoryCache \<Rightarrow> 'v MemoryCache" where
  "count_hit c = c\<lparr>stats := (stats c)\<lparr>hits := hits (stats c) + 1\<rparr>\<rparr>"

text \<open>
  \<^verbatim>\<open>get(key)\<close>: the result is \<open>None\<close> for \<^verbatim>\<open>undefined\<close>. The expiry test is
  \<^verbatim>\<open>item.expiry && item.expiry < now\<close>, so an expiry of \<open>0\<close> is falsy and never expires.
\<close>

definition MemoryCache_get ::
  "'v MemoryCache \<Rightarrow> int \<Rightarrow> string \<Rightarrow> 'v option \<times> 'v MemoryCache" where
  "MemoryCache_get c now key =
     (case map_of (cache c) key of
        None \<Rightarrow> (None, count_miss c)
      | Some it \<Rightarrow>
          if expiry it \<noteq> 0 \<and> expiry it < now
          then (None, count_miss (c\<lparr>cache := AList.delete key (cache c)\<rparr>))
          else (Some (val it),
                count_hit (c\<lparr>cache := AList.update key (it\<lparr>lastAccessed := now\<rparr>) (cache c)\<rparr>)))"

text \<open>
  The loop of \<^verbatim>\<open>evictLRU\<close>: the accumulator is \<^verbatim>\<open>(oldest, oldestKey)\<close>, with \<open>None\<close>
  for the initial \<^verbatim>\<open>Infinity\<close> and \<^verbatim>\<open>null\<close>; every timestamp is below \<^verbatim>\<open>Infinity\<close>.
\<close>

fun oldest_scan ::
  "(string \<times> 'v item) list \<Rightarrow> int option \<times> string option \<Rightarrow> int option \<times> string option" where
  "oldest_scan [] acc = acc"
| "oldest_scan ((key, it) # rest) (oldest, oldestKey) =
     (if (case oldest of None \<Rightarrow> True | Some t \<Rightarrow> lastAccessed it < t)
      then oldest_scan rest (Some (lastAccessed it), Some key)
      else oldest_scan rest (oldest, oldestKey))"

text \<open>\<^verbatim>\<open>if (oldestKey)\<close>: \<^verbatim>\<open>null\<close> and the empty string are falsy.\<close>

definition evictLRU :: "'v MemoryCache \<Rightarrow> 'v MemoryCache" where
  "evictLRU c =
     (case snd (oldest_scan (cache c) (None, None)) of
        None \<Rightarrow> c
      | Some k \<Rightarrow>
          if k \<noteq> []
          then c\<lparr>cache := AList.delete k (cache c),
                 stats := (stats c)\<lparr>evictions := evictions (stats c) + 1\<rparr>\<rparr>
          else c)"

definition MemoryCache_set ::
  "'v MemoryCache \<Rightarrow> int \<Rightarrow> string \<Rightarrow> 'v \<Rightarrow> int option \<Rightarrow> 'v MemoryCache" where
  "MemoryCache_set c now key v ttl_arg =
     (let e = (case ttl_arg of
                 None \<Rightarrow> now + ttl c
               | Some t \<Rightarrow> if t \<noteq> 0 then now + t else now + ttl c);
          c1 = c\<lparr>stats := (stats c)\<lparr>sets := sets (stats c) + 1\<rparr>\<rparr>;
          c2 = (if maxSize c1 \<le> int (length (cache c1)) then evictLRU c1 else c1)
      in c2\<lparr>cache := AList.update key \<lparr>val = v, expiry = e, lastAccessed = now\<rparr> (cache c2)\<rparr>)"

definition MemoryCache_delete :: "'v MemoryCache \<Rightarrow> string \<Rightarrow> 'v MemoryCache" where
  "MemoryCache_delete c key = c\<lparr>cache := AList.delete key (cache c)\<rparr>"

definition MemoryCache_clear :: "'v MemoryCache \<Rightarrow> 'v MemoryCache" where
  "MemoryCache_clear c = c\<lparr>cache := [], stats := zero_stats\<rparr>"

subsection \<open>Facts about the cache operations\<close>

text \<open>
  The entry \<open>(k, it)\<close> is the first one, in insertion order, among the entries whose
  \<^verbatim>\<open>lastAccessed\<close> is smallest: every entry before it is strictly younger, none after it
  is older.
\<close>

definition first_oldest :: "(string \<times> 'v item) list \<Rightarrow> string \<Rightarrow> 'v item \<Rightarrow> bool" where
  "first_oldest xs k it =
     (\<exists>pre post. xs = pre @ (k, it) # post
        \<and> (\<forall>(a, x) \<in> set pre. lastAccessed it < lastAccessed x)
        \<and> (\<forall>(a, x) \<in> set post. lastAccessed it \<le> lastAccessed x))"

lemma first_oldest_head:
  assumes "\<forall>(a, x) \<in> set rest. lastAccessed it \<le> lastAccessed x"
  shows "first_oldest ((k, it) # rest) k it"
proof -
  have "(k, it) # rest = [] @ (k, it) # rest" by simp
  moreover have "\<forall>(a, x) \<in> set ([] :: (string \<times> 'a item) list). lastAccessed it < lastAccessed x"
    by simp
  ultimately show ?thesis unfolding first_oldest_def using assms by blast
qed

lemma first_oldest_later:
  assumes "first_oldest rest k it" and "lastAccessed it < lastAccessed y"
  shows "first_oldest ((b, y) # rest) k it"
proof -
  from assms(1) obtain pre post where s: "rest = pre @ (k, it) # post"
    and pre: "\<forall>(a, x) \<in> set pre. lastAccessed it < lastAccessed x"
    and post: "\<forall>(a, x) \<in> set post. lastAccessed it \<le> lastAccessed x"
    unfolding first_oldest_def by blast
  from s have "(b, y) # rest = ((b, y) # pre) @ (k, it) # post" by simp
  moreover from pre assms(2) have "\<forall>(a, x) \<in> set ((b, y) # pre). lastAccessed it < lastAccessed x"
    by simp
  ultimately show ?thesis unfolding first_oldest_def using post by blast
qed

lemma first_oldest_member: "first_oldest xs k it \<Longrightarrow> (k, it) \<in> set xs"
  unfolding first_oldest_def by auto

lemma first_oldest_least:
  "first_oldest xs k it \<Longrightarrow> \<forall>(a, x) \<in> set xs. lastAccessed it \<le> lastAccessed x"
  unfolding first_oldest_def by fastforce

lemma first_oldest_unique:
  assumes "first_oldest xs k it" and "first_oldest xs k' it'"
  shows "k' = k \<and> it' = it"
proof -
  from assms(1) obtain pre post where s: "xs = pre @ (k, it) # post"
    and pre: "\<forall>(a, x) \<in> set pre. lastAccessed it < lastAccessed x"
    and post: "\<forall>(a, x) \<in> set post. lastAccessed it \<le> lastAccessed x"
    unfolding first_oldest_def by blast
  from assms(2) obtain pre' post' where s': "xs = pre' @ (k', it') # post'"
    and pre': "\<forall>(a, x) \<in> set pre'. lastAccessed it' < lastAccessed x"
    and post': "\<forall>(a, x) \<in> set post'. lastAccessed it' \<le> lastAccessed x"
    unfolding first_oldest_def by blast
  from s s' have e: "pre @ (k, it) # post = pre' @ (k', it') # post'" by simp
  then obtain us where d:
    "(pre = pre' @ us \<and> us @ (k, it) # post = (k', it') # post')
     \<or> (pre @ us = pre' \<and> (k, it) # post = us @ (k', it') # post')"
    by (auto simp: append_eq_append_conv2)
  show ?thesis
  proof (cases us)
    case Nil
    with d show ?thesis by auto
  next
    case (Cons u vs)
    from d show ?thesis
    proof
      assume a: "pre = pre' @ us \<and> us @ (k, it) # post = (k', it') # post'"
      with Cons have "u = (k', it')" "post' = vs @ (k, it) # post" by auto
      with a Cons have "(k', it') \<in> set pre" "(k, it) \<in> set post'" by auto
      with pre post' have "lastAccessed it < lastAccessed it'" "lastAccessed it' \<le> lastAccessed it"
        by auto
      then show ?thesis by simp
    next
      assume a: "pre @ us = pre' \<and> (k, it) # post = us @ (k', it') # post'"
      with Cons have "u = (k, it)" "post = vs @ (k', it') # post'" by auto
      with a Cons have "(k, it) \<in> set pre'" "(k', it') \<in> set post" by auto
      with pre' post have "lastAccessed it' < lastAccessed it" "lastAccessed it \<le> lastAccessed it'"
        by auto
      then show ?thesis by simp
    qed
  qed
qed

lemma oldest_scan_acc:
  "(oldest_scan xs (Some t, Some k) = (Some t, Some k)
      \<and> (\<forall>(a, x) \<in> set xs. t \<le> lastAccessed x))
   \<or> (\<exists>k' it'. oldest_scan xs (Some t, Some k) = (Some (lastAccessed it'), Some k')
          \<and> lastAccessed it' < t \<and> first_oldest xs k' it')"
proof (induction xs arbitrary: t k)
  case Nil
  then show ?case by simp
next
  case (Cons p rest)
  obtain b y where p: "p = (b, y)" by (cases p)
  show ?case
  proof (cases "lastAccessed y < t")
    case True
    from Cons.IH [of "lastAccessed y" b] show ?thesis
    proof
      assume h: "oldest_scan rest (Some (lastAccessed y), Some b) = (Some (lastAccessed y), Some b)
                 \<and> (\<forall>(a, x) \<in> set rest. lastAccessed y \<le> lastAccessed x)"
      then have "first_oldest ((b, y) # rest) b y" by (intro first_oldest_head) simp
      with h True p show ?thesis by auto
    next
      assume "\<exists>k' it'. oldest_scan rest (Some (lastAccessed y), Some b)
                  = (Some (lastAccessed it'), Some k')
                \<and> lastAccessed it' < lastAccessed y \<and> first_oldest rest k' it'"
      then obtain k' it' where h:
        "oldest_scan rest (Some (lastAccessed y), Some b) = (Some (lastAccessed it'), Some k')"
        "lastAccessed it' < lastAccessed y" "first_oldest rest k' it'"
        by blast
      from h(3) h(2) have "first_oldest ((b, y) # rest) k' it'" by (rule first_oldest_later)
      with h True p show ?thesis by auto
    qed
  next
    case False
    from Cons.IH [of t k] show ?thesis
    proof
      assume "oldest_scan rest (Some t, Some k) = (Some t, Some k)
                 \<and> (\<forall>(a, x) \<in> set rest. t \<le> lastAccessed x)"
      with False p show ?thesis by auto
    next
      assume "\<exists>k' it'. oldest_scan rest (Some t, Some k) = (Some (lastAccessed it'), Some k')
                \<and> lastAccessed it' < t \<and> first_oldest rest k' it'"
      then obtain k' it' where h:
        "oldest_scan rest (Some t, Some k) = (Some (lastAccessed it'), Some k')"
        "lastAccessed it' < t" "first_oldest rest k' it'"
        by blast
      from h(2) False have "lastAccessed it' < lastAccessed y" by simp
      with h(3) have "first_oldest ((b, y) # rest) k' it'" by (rule first_oldest_later)
      with h False p show ?thesis by auto
    qed
  qed
qed

lemma oldest_scan_first:
  assumes "xs \<noteq> []"
  shows "\<exists>k' it'. snd (oldest_scan xs (None, None)) = Some k' \<and> first_oldest xs k' it'"
proof -
  from assms obtain b y rest where xs: "xs = (b, y) # rest" by (cases xs) auto
  from oldest_scan_acc [of rest "lastAccessed y" b] show ?thesis
  proof
    assume h: "oldest_scan rest (Some (lastAccessed y), Some b) = (Some (lastAccessed y), Some b)
               \<and> (\<forall>(a, x) \<in> set rest. lastAccessed y \<le> lastAccessed x)"
    then have "first_oldest ((b, y) # rest) b y" by (intro first_oldest_head) simp
    with h xs show ?thesis by auto
  next
    assume "\<exists>k' it'. oldest_scan rest (Some (lastAccessed y), Some b)
                = (Some (lastAccessed it'), Some k')
              \<and> lastAccessed it' < lastAccessed y \<and> first_oldest rest k' it'"
    then obtain k' it' where h:
      "oldest_scan rest (Some (lastAccessed y), Some b) = (Some (lastAccessed it'), Some k')"
      "lastAccessed it' < lastAccessed y" "first_oldest rest k' it'"
      by blast
    from h(3) h(2) have "first_oldest ((b, y) # rest) k' it'" by (rule first_oldest_later)
    with h xs show ?thesis by auto
  qed
qed

lemma MemoryCache_set_distinct:
  "distinct (map fst (cache c)) \<Longrightarrow> distinct (map fst (cache (MemoryCache_set c now key v t)))"
  by (simp add: MemoryCache_set_def evictLRU_def Let_def distinct_update distinct_delete
      split: option.splits)

lemma MemoryCache_get_distinct:
  "distinct (map fst (cache c)) \<Longrightarrow> distinct (map fst (cache (snd (MemoryCache_get c now key))))"
  by (simp add: MemoryCache_get_def count_miss_def count_hit_def distinct_update distinct_delete
      split: option.splits)

text \<open>
  Claim C10. \<^verbatim>\<open>set(key, value, ttl)\<close> with a falsy \<^verbatim>\<open>ttl\<close> (omitted, \<^verbatim>\<open>undefined\<close> or
  \<open>0\<close>) stores the entry with expiry \<open>now + this.ttl\<close>, the default of the cache, which the
  call leaves as it was; a requested lifetime of \<open>0\<close> is not an entry that has expired at
  once: a \<^verbatim>\<open>get\<close> at any time up to \<open>now + this.ttl\<close> returns the value.
\<close>

theorem set_falsy_ttl_default:
  assumes "ttl_arg = None \<or> ttl_arg = Some 0"
  shows "map_of (cache (MemoryCache_set c now key v ttl_arg)) key
           = Some \<lparr>val = v, expiry = now + ttl c, lastAccessed = now\<rparr>
         \<and> ttl (MemoryCache_set c now key v ttl_arg) = ttl c
         \<and> (now' \<le> now + ttl c \<longrightarrow>
              fst (MemoryCache_get (MemoryCache_set c now key v ttl_arg) now' key) = Some v)"
proof -
  have stored: "map_of (cache (MemoryCache_set c now key v ttl_arg)) key
           = Some \<lparr>val = v, expiry = now + ttl c, lastAccessed = now\<rparr>"
    using assms
    by (auto simp: MemoryCache_set_def evictLRU_def Let_def update_conv' split: option.splits)
  have kept: "ttl (MemoryCache_set c now key v ttl_arg) = ttl c"
    by (auto simp: MemoryCache_set_def evictLRU_def Let_def split: option.splits)
  have "now' \<le> now + ttl c \<longrightarrow>
          fst (MemoryCache_get (MemoryCache_set c now key v ttl_arg) now' key) = Some v"
    by (simp add: MemoryCache_get_def stored)
  with stored kept show ?thesis by simp
qed

theorem set_falsy_ttl_default_witness:
  "map_of (cache (MemoryCache_set (new_MemoryCache \<lparr>opt_ttl = None, opt_maxSize = None\<rparr>)
       1000 ''k'' (7::nat) (Some 0))) ''k''
     = Some \<lparr>val = 7, expiry = 61000, lastAccessed = 1000\<rparr>
   \<and> fst (MemoryCache_get (MemoryCache_set (new_MemoryCache \<lparr>opt_ttl = None, opt_maxSize = None\<rparr>)
       1000 ''k'' (7::nat) (Some 0)) 61000 ''k'') = Some 7"
  using set_falsy_ttl_default [of "Some 0" "new_MemoryCache \<lparr>opt_ttl = None, opt_maxSize = None\<rparr>"
      1000 "''k''" "7::nat" 61000]
  by (simp add: new_MemoryCache_def js_or_def)

text \<open>
  Claim C7, as amended. For an entry whose \<^verbatim>\<open>expiry\<close> is not \<open>0\<close>, a \<^verbatim>\<open>get\<close> at a time
  after the expiry returns \<^verbatim>\<open>undefined\<close>, deletes the entry and counts one miss and no hit;
  a further \<^verbatim>\<open>get\<close> of the key at any time returns \<^verbatim>\<open>undefined\<close> again and leaves the
  entries as they are.
\<close>

theorem get_after_expiry:
  assumes "map_of (cache c) key = Some it" and "expiry it \<noteq> 0" and "expiry it < now"
  shows "fst (MemoryCache_get c now key) = None
       \<and> cache (snd (MemoryCache_get c now key)) = AList.delete key (cache c)
       \<and> map_of (cache (snd (MemoryCache_get c now key))) key = None
       \<and> misses (stats (snd (MemoryCache_get c now key))) = misses (stats c) + 1
       \<and> hits (stats (snd (MemoryCache_get c now key))) = hits (stats c)
       \<and> fst (MemoryCache_get (snd (MemoryCache_get c now key)) now' key) = None
       \<and> cache (snd (MemoryCache_get (snd (MemoryCache_get c now key)) now' key))
           = cache (snd (MemoryCache_get c now key))"
  using assms
  by (simp add: MemoryCache_get_def count_miss_def delete_conv')

theorem get_after_expiry_witness:
  "fst (MemoryCache_get (MemoryCache_set (new_MemoryCache \<lparr>opt_ttl = None, opt_maxSize = None\<rparr>)
       1000 ''k'' (7::nat) (Some 500)) 2000 ''k'') = None
   \<and> map_of (cache (snd (MemoryCache_get (MemoryCache_set
       (new_MemoryCache \<lparr>opt_ttl = None, opt_maxSize = None\<rparr>)
       1000 ''k'' (7::nat) (Some 500)) 2000 ''k''))) ''k'' = None
   \<and> misses (stats (snd (MemoryCache_get (MemoryCache_set
       (new_MemoryCache \<lparr>opt_ttl = None, opt_maxSize = None\<rparr>)
       1000 ''k'' (7::nat) (Some 500)) 2000 ''k''))) = 1"
  using get_after_expiry [of "MemoryCache_set (new_MemoryCache \<lparr>opt_ttl = None, opt_maxSize = None\<rparr>)
       1000 ''k'' (7::nat) (Some 500)" "''k''" "\<lparr>val = 7, expiry = 1500, lastAccessed = 1000\<rparr>" 2000 3000]
  by (simp add: MemoryCache_set_def new_MemoryCache_def js_or_def zero_stats_def Let_def)

text \<open>
  The claim as stated fails for an entry whose expiry is \<open>0\<close>: \<^verbatim>\<open>set\<close> at time \<open>1000\<close> with a
  lifetime of \<open>-1000\<close> stores expiry \<open>0\<close>, and a \<^verbatim>\<open>get\<close> at time \<open>5000\<close>, after that expiry,
  still returns the value.
\<close>

theorem get_expiry_zero_counterexample:
  "map_of (cache (MemoryCache_set (new_MemoryCache \<lparr>opt_ttl = None, opt_maxSize = None\<rparr>)
       1000 ''k'' (7::nat) (Some (- 1000)))) ''k''
     = Some \<lparr>val = 7, expiry = 0, lastAccessed = 1000\<rparr>
   \<and> (0::int) < 5000
   \<and> fst (MemoryCache_get (MemoryCache_set (new_MemoryCache \<lparr>opt_ttl = None, opt_maxSize = None\<rparr>)
       1000 ''k'' (7::nat) (Some (- 1000))) 5000 ''k'') = Some 7"
  by (simp add: MemoryCache_get_def MemoryCache_set_def new_MemoryCache_def js_or_def
      count_hit_def zero_stats_def Let_def)

lemma length_delete_present:
  "distinct (map fst xs) \<Longrightarrow> k \<in> fst ` set xs \<Longrightarrow> Suc (length (AList.delete k xs)) = length xs"
proof (induction xs)
  case Nil
  then show ?case by simp
next
  case (Cons p xs)
  show ?case
  proof (cases "fst p = k")
    case True
    with Cons.prems have "k \<notin> fst ` set xs" by auto
    then have "AList.delete k xs = xs" by (rule delete_id)
    with True show ?thesis by (cases p) simp
  next
    case False
    with Cons show ?thesis by (cases p) auto
  qed
qed

text \<open>
  An example state: a cache of capacity two, filled by two calls of \<^verbatim>\<open>set\<close>.
\<close>

definition two_of_two :: "nat MemoryCache" where
  "two_of_two = MemoryCache_set (MemoryCache_set
      (new_MemoryCache \<lparr>opt_ttl = None, opt_maxSize = Some 2\<rparr>) 1 ''a'' 10 None) 2 ''b'' 20 None"

lemma two_of_two_eval:
  "two_of_two = \<lparr>cache = [(''a'', \<lparr>val = 10, expiry = 60001, lastAccessed = 1\<rparr>),
                           (''b'', \<lparr>val = 20, expiry = 60002, lastAccessed = 2\<rparr>)],
                  ttl = 60000, maxSize = 2, hitCount = 0, missCount = 0,
                  stats = \<lparr>hits = 0, misses = 0, sets = 2, evictions = 0\<rparr>\<rparr>"
  by (simp add: two_of_two_def MemoryCache_set_def new_MemoryCache_def js_or_def zero_stats_def Let_def)

text \<open>
  A second example: a full cache whose two entries were written at the same time, so that
  their \<^verbatim>\<open>lastAccessed\<close> agree.
\<close>

definition tied_pair :: "nat MemoryCache" where
  "tied_pair = MemoryCache_set (MemoryCache_set
      (new_MemoryCache \<lparr>opt_ttl = None, opt_maxSize = Some 2\<rparr>) 1 ''x'' 10 None) 1 ''y'' 20 None"

lemma tied_pair_eval:
  "tied_pair = \<lparr>cache = [(''x'', \<lparr>val = 10, expiry = 60001, lastAccessed = 1\<rparr>),
                           (''y'', \<lparr>val = 20, expiry = 60001, lastAccessed = 1\<rparr>)],
                  ttl = 60000, maxSize = 2, hitCount = 0, missCount = 0,
                  stats = \<lparr>hits = 0, misses = 0, sets = 2, evictions = 0\<rparr>\<rparr>"
  by (simp add: tied_pair_def MemoryCache_set_def new_MemoryCache_def js_or_def zero_stats_def Let_def)

lemma tied_pair_first:
  "first_oldest (cache tied_pair) ''x'' \<lparr>val = 10, expiry = 60001, lastAccessed = 1\<rparr>"
  unfolding tied_pair_eval by (simp add: first_oldest_head)

text \<open>
  Claim C2, as amended. The capacity test of \<^verbatim>\<open>set\<close> is \<^verbatim>\<open>this.cache.size >= this.maxSize\<close>,
  made before the entry is written and whether or not the key is already present. A \<^verbatim>\<open>set\<close>
  on a cache holding fewer than \<^verbatim>\<open>maxSize\<close> entries evicts nothing. A \<^verbatim>\<open>set\<close> on a
  non-empty cache holding \<^verbatim>\<open>maxSize\<close> entries or more selects one entry, the first in
  insertion order among those whose \<^verbatim>\<open>lastAccessed\<close> is smallest (every entry before it is
  strictly younger, none after it is older); when the key of that entry is not the empty
  string, exactly that entry is removed before the new one is written, and the eviction
  counter goes up by one.
\<close>

theorem set_eviction_policy:
  assumes "distinct (map fst (cache c))"
  shows "(int (length (cache c)) < maxSize c \<longrightarrow>
            (\<exists>e. cache (MemoryCache_set c now key v t)
                   = AList.update key \<lparr>val = v, expiry = e, lastAccessed = now\<rparr> (cache c))
            \<and> evictions (stats (MemoryCache_set c now key v t)) = evictions (stats c))
       \<and> (maxSize c \<le> int (length (cache c)) \<and> cache c \<noteq> [] \<longrightarrow>
            (\<exists>k0 it0. first_oldest (cache c) k0 it0
               \<and> (\<forall>k1 it1. first_oldest (cache c) k1 it1 \<longrightarrow> k1 = k0 \<and> it1 = it0)
               \<and> map_of (cache c) k0 = Some it0
               \<and> (\<forall>(a, it) \<in> set (cache c). lastAccessed it0 \<le> lastAccessed it)
               \<and> (k0 \<noteq> [] \<longrightarrow>
                    (\<exists>e. cache (MemoryCache_set c now key v t)
                       = AList.update key \<lparr>val = v, expiry = e, lastAccessed = now\<rparr>
                           (AList.delete k0 (cache c)))
                    \<and> Suc (length (AList.delete k0 (cache c))) = length (cache c)
                    \<and> evictions (stats (MemoryCache_set c now key v t))
                        = evictions (stats c) + 1)))"
proof (intro conjI impI)
  assume "int (length (cache c)) < maxSize c"
  then show "\<exists>e. cache (MemoryCache_set c now key v t)
                   = AList.update key \<lparr>val = v, expiry = e, lastAccessed = now\<rparr> (cache c)"
    by (intro exI) (simp add: MemoryCache_set_def Let_def)
next
  assume "int (length (cache c)) < maxSize c"
  then show "evictions (stats (MemoryCache_set c now key v t)) = evictions (stats c)"
    by (simp add: MemoryCache_set_def Let_def)
next
  assume full: "maxSize c \<le> int (length (cache c)) \<and> cache c \<noteq> []"
  then obtain k0 it0 where
    k0: "snd (oldest_scan (cache c) (None, None)) = Some k0" and f: "first_oldest (cache c) k0 it0"
    using oldest_scan_first [of "cache c"] by blast
  from f have mem: "(k0, it0) \<in> set (cache c)" by (rule first_oldest_member)
  from f have least: "\<forall>(a, it) \<in> set (cache c). lastAccessed it0 \<le> lastAccessed it"
    by (rule first_oldest_least)
  from f have uniq: "\<forall>k1 it1. first_oldest (cache c) k1 it1 \<longrightarrow> k1 = k0 \<and> it1 = it0"
    using first_oldest_unique by blast
  from assms mem have m: "map_of (cache c) k0 = Some it0" by simp
  from mem have "k0 \<in> fst ` set (cache c)" by force
  with assms have len: "Suc (length (AList.delete k0 (cache c))) = length (cache c)"
    by (rule length_delete_present)
  have ev: "k0 \<noteq> [] \<longrightarrow>
          (\<exists>e. cache (MemoryCache_set c now key v t)
             = AList.update key \<lparr>val = v, expiry = e, lastAccessed = now\<rparr>
                 (AList.delete k0 (cache c)))
          \<and> evictions (stats (MemoryCache_set c now key v t)) = evictions (stats c) + 1"
    using full k0 by (intro impI conjI exI) (simp_all add: MemoryCache_set_def evictLRU_def Let_def)
  from f uniq m least len ev
  show "\<exists>k0 it0. first_oldest (cache c) k0 it0
               \<and> (\<forall>k1 it1. first_oldest (cache c) k1 it1 \<longrightarrow> k1 = k0 \<and> it1 = it0)
               \<and> map_of (cache c) k0 = Some it0
               \<and> (\<forall>(a, it) \<in> set (cache c). lastAccessed it0 \<le> lastAccessed it)
               \<and> (k0 \<noteq> [] \<longrightarrow>
                    (\<exists>e. cache (MemoryCache_set c now key v t)
                       = AList.update key \<lparr>val = v, expiry = e, lastAccessed = now\<rparr>
                           (AList.delete k0 (cache c)))
                    \<and> Suc (length (AList.delete k0 (cache c))) = length (cache c)
                    \<and> evictions (stats (MemoryCache_set c now key v t))
                        = evictions (stats c) + 1)"
    by blast
qed

theorem set_eviction_policy_witness:
  "distinct (map fst (cache tied_pair))
   \<and> maxSize tied_pair \<le> int (length (cache tied_pair))
   \<and> first_oldest (cache tied_pair) ''x'' \<lparr>val = 10, expiry = 60001, lastAccessed = 1\<rparr>
   \<and> evictions (stats (MemoryCache_set tied_pair 3 ''z'' 30 None)) = 1
   \<and> map fst (cache (MemoryCache_set tied_pair 3 ''z'' 30 None)) = [''y'', ''z'']"
  using set_eviction_policy [of tied_pair 3 "''z''" 30 None] tied_pair_first
  by (simp add: tied_pair_eval MemoryCache_set_def evictLRU_def Let_def)

text \<open>
  The claim as stated fails in its last part: on the full cache above, overwriting the key
  \<open>b\<close>, which is present, would leave the entry count at two, yet the call evicts \<open>a\<close>.
\<close>

theorem set_overwrite_evicts_counterexample:
  "length (cache two_of_two) = 2 \<and> maxSize two_of_two = 2
   \<and> map_of (cache two_of_two) ''b'' = Some \<lparr>val = 20, expiry = 60002, lastAccessed = 2\<rparr>
   \<and> evictions (stats (MemoryCache_set two_of_two 3 ''b'' 21 None))
       = evictions (stats two_of_two) + 1
   \<and> map fst (cache (MemoryCache_set two_of_two 3 ''b'' 21 None)) = [''b'']"
  by (simp add: two_of_two_eval MemoryCache_set_def evictLRU_def Let_def)

section \<open>The RPC cache policy: class RpcCache of src/utils/cache.js\<close>

text \<open>
  The values \<^verbatim>\<open>JSON.stringify\<close> serialises: \<^verbatim>\<open>undefined\<close>, \<^verbatim>\<open>null\<close>, booleans, integer
  numbers (of magnitude below \<open>10^21\<close>, which JavaScript prints in plain decimal), strings of
  ASCII characters, arrays, and plain objects, whose property list is in the order
  \<^verbatim>\<open>JSON.stringify\<close> enumerates it: the order of insertion, for keys that are not array
  indices. An array or an object carries its reference, the identity that \<^verbatim>\<open>===\<close> compares
  and that tells apart two arrays with the same elements; \<^verbatim>\<open>JSON.stringify\<close> never reads
  it. A value is the tree that \<^verbatim>\<open>JSON.stringify\<close> walks; a structure that contains itself,
  on which \<^verbatim>\<open>JSON.stringify\<close> throws, is not such a tree.
\<close>

datatype jsval =
    JUndefined
  | JNull
  | JBool bool
  | JNum int
  | JStr string
  | JArr nat "jsval list"
  | JObj nat "(string \<times> jsval) list"

fun show_nat :: "nat \<Rightarrow> string" where
  "show_nat n = (if n < 10 then [''0123456789'' ! n]
                 else show_nat (n div 10) @ [''0123456789'' ! (n mod 10)])"

definition show_int :: "int \<Rightarrow> string" where
  "show_int i = (if i < 0 then CHR ''-'' # show_nat (nat (- i)) else show_nat (nat i))"

definition escape_char :: "char \<Rightarrow> string" where
  "escape_char c =
     (if c = CHR 0x22 then [CHR 0x5C, CHR 0x22]
      else if c = CHR 0x5C then [CHR 0x5C, CHR 0x5C]
      else if c = CHR 0x08 then [CHR 0x5C, CHR ''b'']
      else if c = CHR 0x0C then [CHR 0x5C, CHR ''f'']
      else if c = CHR 0x0A then [CHR 0x5C, CHR ''n'']
      else if c = CHR 0x0D then [CHR 0x5C, CHR ''r'']
      else if c = CHR 0x09 then [CHR 0x5C, CHR ''t'']
      else if (of_char c :: nat) < 32
        then [CHR 0x5C, CHR ''u'', CHR ''0'', CHR ''0'',
              ''0123456789abcdef'' ! (of_char c div 16), ''0123456789abcdef'' ! (of_char c mod 16)]
      else [c])"

definition quote :: "string \<Rightarrow> string" where
  "quote s = CHR 0x22 # concat (map escape_char s) @ [CHR 0x22]"

fun join_comma :: "string list \<Rightarrow> string" where
  "join_comma [] = []"
| "join_comma [s] = s"
| "join_comma (s # t # rest) = s @ '','' @ join_comma (t # rest)"

text \<open>
  \<^verbatim>\<open>JSON.stringify\<close>: \<open>None\<close> is the result \<^verbatim>\<open>undefined\<close>. An \<^verbatim>\<open>undefined\<close> array element is
  written \<^verbatim>\<open>null\<close>, and a property whose value is \<^verbatim>\<open>undefined\<close> is left out.
\<close>

fun stringify :: "jsval \<Rightarrow> string option"
  and stringify_elems :: "jsval list \<Rightarrow> string list"
  and stringify_props :: "(string \<times> jsval) list \<Rightarrow> string list" where
  "stringify JUndefined = None"
| "stringify JNull = Some ''null''"
| "stringify (JBool b) = Some (if b then ''true'' else ''false'')"
| "stringify (JNum n) = Some (show_int n)"
| "stringify (JStr s) = Some (quote s)"
| "stringify (JArr r xs) = Some (''['' @ join_comma (stringify_elems xs) @ '']'')"
| "stringify (JObj r ps) = Some (''{'' @ join_comma (stringify_props ps) @ ''}'')"
| "stringify_elems [] = []"
| "stringify_elems (x # xs) =
     (case stringify x of None \<Rightarrow> ''null'' | Some s \<Rightarrow> s) # stringify_elems xs"
| "stringify_props [] = []"
| "stringify_props ((k, v) # ps) =
     (case stringify v of
        None \<Rightarrow> stringify_props ps
      | Some s \<Rightarrow> (quote k @ '':'' @ s) # stringify_props ps)"

text \<open>
  The template literal of \<^verbatim>\<open>createKey\<close>; \<^verbatim>\<open>undefined\<close> is printed as the word.
\<close>

definition createKey :: "string \<Rightarrow> jsval \<Rightarrow> string" where
  "createKey method params =
     method @ '':'' @ (case stringify params of None \<Rightarrow> ''undefined'' | Some s \<Rightarrow> s)"

record rpc_options =
  rpc_ttlConfig :: "string \<rightharpoonup> int"
  rpc_maxSize :: "int option"

record 'v RpcCache =
  ttlConfig :: "string \<rightharpoonup> int"
  rcache :: "'v MemoryCache"

definition default_ttlConfig :: "string \<rightharpoonup> int" where
  "default_ttlConfig = map_of
     [(''blockNumber'', 3000), (''getCode'', 3600000), (''getBalance'', 10000),
      (''getTransactionCount'', 5000), (''getFeeData'', 15000), (''tokenBalance'', 15000),
      (''getBlock'', 3600000), (''default'', 5000)]"

definition new_RpcCache :: "rpc_options \<Rightarrow> 'v RpcCache" where
  "new_RpcCache opts =
     (let cfg = default_ttlConfig ++ rpc_ttlConfig opts
      in \<lparr>ttlConfig = cfg,
          rcache = new_MemoryCache
            \<lparr>opt_ttl = cfg ''default'', opt_maxSize = Some (js_or (rpc_maxSize opts) 1000)\<rparr>\<rparr>)"

definition getTtl :: "'v RpcCache \<Rightarrow> string \<Rightarrow> int option" where
  "getTtl r method =
     (case ttlConfig r method of
        None \<Rightarrow> ttlConfig r ''default''
      | Some t \<Rightarrow> if t \<noteq> 0 then Some t else ttlConfig r ''default'')"

definition RpcCache_get ::
  "'v RpcCache \<Rightarrow> int \<Rightarrow> string \<Rightarrow> jsval \<Rightarrow> 'v option \<times> 'v RpcCache" where
  "RpcCache_get r now method params =
     (let res = MemoryCache_get (rcache r) now (createKey method params)
      in (fst res, r\<lparr>rcache := snd res\<rparr>))"

definition RpcCache_set ::
  "'v RpcCache \<Rightarrow> int \<Rightarrow> string \<Rightarrow> jsval \<Rightarrow> 'v \<Rightarrow> 'v RpcCache" where
  "RpcCache_set r now method params v =
     r\<lparr>rcache := MemoryCache_set (rcache r) now (createKey method params) v (getTtl r method)\<rparr>"

text \<open>
  \<^verbatim>\<open>invalidate(method)\<close>: the first loop collects the keys that start with the method name
  and a colon, the second deletes them.
\<close>

definition invalidate :: "'v RpcCache \<Rightarrow> string \<Rightarrow> 'v RpcCache" where
  "invalidate r method =
     (let keysToDelete = map fst (filter (\<lambda>(key, _). prefix (method @ '':'') key) (cache (rcache r)))
      in r\<lparr>rcache := fold (\<lambda>key c. MemoryCache_delete c key) keysToDelete (rcache r)\<rparr>)"

lemma map_of_fold_delete:
  "map_of (cache (fold (\<lambda>key c. MemoryCache_delete c key) ks c)) k
     = (if k \<in> set ks then None else map_of (cache c) k)"
  by (induction ks arbitrary: c) (auto simp: MemoryCache_delete_def delete_conv')

lemma map_of_invalidate:
  "map_of (cache (rcache (invalidate r m))) k
     = (if prefix (m @ '':'') k then None else map_of (cache (rcache r)) k)"
proof (cases "prefix (m @ '':'') k")
  case True
  show ?thesis
  proof (cases "map_of (cache (rcache r)) k")
    case None
    with True show ?thesis by (simp add: invalidate_def map_of_fold_delete)
  next
    case (Some it)
    then have "(k, it) \<in> set (cache (rcache r))" by (rule map_of_SomeD)
    with True have "k \<in> fst ` set (filter (\<lambda>(key, _). prefix (m @ '':'') key) (cache (rcache r)))"
      by force
    with True show ?thesis by (simp add: invalidate_def map_of_fold_delete)
  qed
next
  case False
  then show ?thesis by (auto simp: invalidate_def map_of_fold_delete)
qed

lemma separator_split:
  "c \<notin> set a \<Longrightarrow> c \<notin> set b \<Longrightarrow> prefix (a @ [c]) (b @ c # s) \<Longrightarrow> a = b"
proof (induction a arbitrary: b)
  case Nil
  then show ?case by (cases b) auto
next
  case (Cons x a)
  then show ?case by (cases b) auto
qed

text \<open>
  An example state: three entries, written for the methods \<open>tokenBalance\<close>, \<open>getBalance\<close> and
  \<open>tokenBalance:0xabc\<close>. The last is a method name of the form that \<^verbatim>\<open>getFromCache\<close> of the
  repository builds, \<^verbatim>\<open>`${method}:${key}`\<close>.
\<close>

definition rpc_example :: "jsval RpcCache" where
  "rpc_example = RpcCache_set (RpcCache_set
     (RpcCache_set (new_RpcCache \<lparr>rpc_ttlConfig = Map.empty, rpc_maxSize = None\<rparr>)
        1 ''tokenBalance'' (JArr 1 [JStr ''0xabc'']) (JNum 5))
     2 ''getBalance'' (JArr 1 [JStr ''0xabc'']) (JNum 9))
     3 ''tokenBalance:0xabc'' (JArr 2 []) (JNum 30)"

lemmas rpc_eval = rpc_example_def RpcCache_set_def new_RpcCache_def new_MemoryCache_def js_or_def
  zero_stats_def MemoryCache_set_def getTtl_def default_ttlConfig_def createKey_def Let_def
  quote_def escape_char_def

text \<open>
  Claim C4, as amended. For distinct method names \<open>m1\<close> and \<open>m2\<close> that contain no colon,
  \<^verbatim>\<open>invalidate(m1)\<close> removes every entry whose key is \<^verbatim>\<open>createKey(m1, p)\<close> for some \<open>p\<close>, and
  leaves every entry whose key is \<^verbatim>\<open>createKey(m2, q)\<close> as it was.
\<close>

theorem invalidate_removes_method_keys:
  assumes "CHR '':'' \<notin> set m1" and "CHR '':'' \<notin> set m2" and "m1 \<noteq> m2"
  shows "map_of (cache (rcache (invalidate r m1))) (createKey m1 p) = None
       \<and> map_of (cache (rcache (invalidate r m1))) (createKey m2 q)
           = map_of (cache (rcache r)) (createKey m2 q)"
proof
  show "map_of (cache (rcache (invalidate r m1))) (createKey m1 p) = None"
    by (simp add: map_of_invalidate createKey_def)
next
  have "\<not> prefix (m1 @ '':'') (createKey m2 q)"
  proof
    assume "prefix (m1 @ '':'') (createKey m2 q)"
    then have "m1 = m2"
      using assms(1,2) separator_split [of "CHR '':''" m1 m2] by (simp add: createKey_def)
    with assms(3) show False by simp
  qed
  then show "map_of (cache (rcache (invalidate r m1))) (createKey m2 q)
           = map_of (cache (rcache r)) (createKey m2 q)"
    by (simp add: map_of_invalidate)
qed

theorem invalidate_removes_method_keys_witness:
  "map_of (cache (rcache (invalidate rpc_example ''tokenBalance'')))
       (createKey ''tokenBalance'' (JArr 1 [JStr ''0xabc''])) = None
   \<and> map_of (cache (rcache (invalidate rpc_example ''tokenBalance'')))
       (createKey ''getBalance'' (JArr 1 [JStr ''0xabc'']))
       = Some \<lparr>val = JNum 9, expiry = 10002, lastAccessed = 2\<rparr>"
  using invalidate_removes_method_keys [of "''tokenBalance''" "''getBalance''" rpc_example
      "JArr 1 [JStr ''0xabc'']" "JArr 1 [JStr ''0xabc'']"]
  by (simp add: rpc_eval)

text \<open>
  The claim as stated fails for a method name that continues another one after a colon:
  \<^verbatim>\<open>invalidate\<close> tests \<^verbatim>\<open>key.startsWith(`${method}:`)\<close>, so invalidating \<open>tokenBalance\<close>
  also removes the entry of the distinct method \<open>tokenBalance:0xabc\<close>.
\<close>

theorem invalidate_prefix_counterexample:
  "''tokenBalance'' \<noteq> ''tokenBalance:0xabc''
   \<and> map_of (cache (rcache rpc_example)) (createKey ''tokenBalance:0xabc'' (JArr 2 []))
       = Some \<lparr>val = JNum 30, expiry = 5003, lastAccessed = 3\<rparr>
   \<and> map_of (cache (rcache (invalidate rpc_example ''tokenBalance'')))
       (createKey ''tokenBalance:0xabc'' (JArr 2 [])) = None"
  by (simp add: map_of_invalidate rpc_eval)














section \<open>The subscription hub: the WebSocket service of src/unnamed/part_008\<close>

text \<open>
  The registry \<^verbatim>\<open>activeSubscriptions\<close> has one object per topic, from a key (an address, a
  transaction hash or a network key) to a \<^verbatim>\<open>Set\<close> of socket ids. Every connection has its
  own \<^verbatim>\<open>clientSubscriptions\<close> (one \<^verbatim>\<open>Set\<close> of keys per topic) and its own
  \<^verbatim>\<open>requestLimiter\<close>; the model indexes both by the socket id. A JavaScript \<^verbatim>\<open>Set\<close> is a
  list without repetitions in insertion order, the order in which the disconnect handler
  walks it. Keys and socket ids are strings, and no key is the name of a property that every
  object inherits (such as \<^verbatim>\<open>constructor\<close>). The model covers what a handler does before
  it returns; the replies that arrive later through the network queue are not part of it,
  and neither are the payload fields \<^verbatim>\<open>network\<close> and \<^verbatim>\<open>networkType\<close> of the balance and
  transaction requests, which only go into the queued request.
\<close>

datatype topic = Balances | PendingTxs | Blocks | GasPrice

definition set_add :: "'a \<Rightarrow> 'a list \<Rightarrow> 'a list" where
  "set_add x xs = (if x \<in> set xs then xs else xs @ [x])"

definition set_delete :: "'a \<Rightarrow> 'a list \<Rightarrow> 'a list" where
  "set_delete x xs = removeAll x xs"

record hub =
  activeSubscriptions :: "topic \<Rightarrow> string \<rightharpoonup> string list"
  clientSubscriptions :: "string \<Rightarrow> topic \<Rightarrow> string list"
  requests :: "string \<Rightarrow> string \<rightharpoonup> int list"

definition initial_hub :: hub where
  "initial_hub = \<lparr>activeSubscriptions = (\<lambda>t. Map.empty), clientSubscriptions = (\<lambda>sid t. []),
                   requests = (\<lambda>sid. Map.empty)\<rparr>"

datatype emitted = ErrorEvent string

definition timeWindow :: int where
  "timeWindow = 60 * 1000"

definition maxRequests :: nat where
  "maxRequests = 60"

text \<open>
  \<^verbatim>\<open>isRateLimited(eventType)\<close> of the connection \<open>sid\<close>, at time \<open>now\<close>: the result and the
  state after it.
\<close>

definition isRateLimited :: "hub \<Rightarrow> string \<Rightarrow> int \<Rightarrow> string \<Rightarrow> bool \<times> hub" where
  "isRateLimited h sid now eventType =
     (let key = sid @ '':'' @ eventType;
          recorded = (case requests h sid key of None \<Rightarrow> [] | Some ts \<Rightarrow> ts);
          kept = filter (\<lambda>timestamp. now - timestamp < timeWindow) recorded
      in if maxRequests \<le> length kept
         then (True, h\<lparr>requests := (requests h)(sid := (requests h sid)(key \<mapsto> kept))\<rparr>)
         else (False, h\<lparr>requests := (requests h)(sid := (requests h sid)(key \<mapsto> kept @ [now]))\<rparr>))"

definition rate_limit_error :: emitted where
  "rate_limit_error = ErrorEvent ''Rate limit exceeded, please try again later.''"

text \<open>
  The registration every subscribe handler performs: create the set of the key when there
  is none, add the socket id to it, and add the key to the connection's own set.
\<close>

definition register :: "hub \<Rightarrow> string \<Rightarrow> topic \<Rightarrow> string \<Rightarrow> hub" where
  "register h sid t key =
     h\<lparr>activeSubscriptions := (activeSubscriptions h)
          (t := (activeSubscriptions h t)
             (key \<mapsto> set_add sid (case activeSubscriptions h t key of None \<Rightarrow> [] | Some s \<Rightarrow> s))),
       clientSubscriptions := (clientSubscriptions h)
          (sid := (clientSubscriptions h sid)(t := set_add key (clientSubscriptions h sid t)))\<rparr>"

definition subscribe_balance ::
  "hub \<Rightarrow> string \<Rightarrow> int \<Rightarrow> string \<Rightarrow> hub \<times> emitted list" where
  "subscribe_balance h sid now address =
     (let r = isRateLimited h sid now ''subscribe:balance''
      in if fst r then (snd r, [rate_limit_error])
         else (register (snd r) sid Balances address, []))"

definition subscribe_transaction ::
  "hub \<Rightarrow> string \<Rightarrow> int \<Rightarrow> string \<Rightarrow> hub \<times> emitted list" where
  "subscribe_transaction h sid now txHash =
     (let r = isRateLimited h sid now ''subscribe:transaction''
      in if fst r then (snd r, [rate_limit_error])
         else (register (snd r) sid PendingTxs txHash, []))"

text \<open>
  \<^verbatim>\<open>subscribe:blocks\<close> calls \<^verbatim>\<open>getProvider\<close> after it has created the set of a new key;
  \<^verbatim>\<open>getProvider\<close> throws for a network it does not know, and the handler's \<^verbatim>\<open>catch\<close> then
  reports the error. \<open>provider_ok network networkType\<close> says that \<^verbatim>\<open>getProvider\<close> returns.
\<close>

definition subscribe_blocks ::
  "(string \<Rightarrow> string \<Rightarrow> bool) \<Rightarrow> hub \<Rightarrow> string \<Rightarrow> int \<Rightarrow> string \<Rightarrow> string \<Rightarrow> hub \<times> emitted list" where
  "subscribe_blocks provider_ok h sid now network networkType =
     (let r = isRateLimited h sid now ''subscribe:blocks''
      in if fst r then (snd r, [rate_limit_error])
         else
           (let h1 = snd r; networkKey = network @ '':'' @ networkType
            in case activeSubscriptions h1 Blocks networkKey of
                 None \<Rightarrow>
                   if provider_ok network networkType
                   then (register h1 sid Blocks networkKey, [])
                   else (h1\<lparr>activeSubscriptions := (activeSubscriptions h1)
                              (Blocks := (activeSubscriptions h1 Blocks)(networkKey \<mapsto> []))\<rparr>,
                         [ErrorEvent ''Block subscription error''])
               | Some s \<Rightarrow> (register h1 sid Blocks networkKey, [])))"

definition subscribe_gasPrice ::
  "hub \<Rightarrow> string \<Rightarrow> int \<Rightarrow> string \<Rightarrow> string \<Rightarrow> hub \<times> emitted list" where
  "subscribe_gasPrice h sid now network networkType =
     (let r = isRateLimited h sid now ''subscribe:gasPrice''
      in if fst r then (snd r, [rate_limit_error])
         else (register (snd r) sid GasPrice (network @ '':'' @ networkType), []))"

text \<open>
  The body of the four unsubscribe handlers: when the key has a set, the socket id leaves
  it and the key leaves the connection's own set. The set stays in the registry.
\<close>

definition unregister :: "hub \<Rightarrow> string \<Rightarrow> topic \<Rightarrow> string \<Rightarrow> hub" where
  "unregister h sid t key =
     (case activeSubscriptions h t key of
        None \<Rightarrow> h
      | Some s \<Rightarrow>
          h\<lparr>activeSubscriptions := (activeSubscriptions h)
               (t := (activeSubscriptions h t)(key \<mapsto> set_delete sid s)),
            clientSubscriptions := (clientSubscriptions h)
               (sid := (clientSubscriptions h sid)(t := set_delete key (clientSubscriptions h sid t)))\<rparr>)"

definition unsubscribe_balance :: "hub \<Rightarrow> string \<Rightarrow> string \<Rightarrow> hub" where
  "unsubscribe_balance h sid address = unregister h sid Balances address"

definition unsubscribe_transaction :: "hub \<Rightarrow> string \<Rightarrow> string \<Rightarrow> hub" where
  "unsubscribe_transaction h sid txHash = unregister h sid PendingTxs txHash"

definition unsubscribe_blocks :: "hub \<Rightarrow> string \<Rightarrow> string \<Rightarrow> string \<Rightarrow> hub" where
  "unsubscribe_blocks h sid network networkType =
     unregister h sid Blocks (network @ '':'' @ networkType)"

definition unsubscribe_gasPrice :: "hub \<Rightarrow> string \<Rightarrow> string \<Rightarrow> string \<Rightarrow> hub" where
  "unsubscribe_gasPrice h sid network networkType =
     unregister h sid GasPrice (network @ '':'' @ networkType)"

text \<open>
  The disconnect handler: one loop per topic over the connection's own set of keys; each
  step removes the socket id from the set of the key and deletes the set when it is empty.
  Then the limiter's keys that start with the socket id are deleted.
\<close>

definition cleanup_key ::
  "string \<Rightarrow> topic \<Rightarrow> string \<Rightarrow> (topic \<Rightarrow> string \<rightharpoonup> string list) \<Rightarrow> (topic \<Rightarrow> string \<rightharpoonup> string list)" where
  "cleanup_key sid t key act =
     (case act t key of
        None \<Rightarrow> act
      | Some s \<Rightarrow>
          if set_delete sid s = [] then act(t := (act t)(key := None))
          else act(t := (act t)(key \<mapsto> set_delete sid s)))"

definition cleanup_topic ::
  "hub \<Rightarrow> string \<Rightarrow> topic \<Rightarrow> (topic \<Rightarrow> string \<rightharpoonup> string list) \<Rightarrow> (topic \<Rightarrow> string \<rightharpoonup> string list)" where
  "cleanup_topic h sid t act = fold (cleanup_key sid t) (clientSubscriptions h sid t) act"

definition disconnect :: "hub \<Rightarrow> string \<Rightarrow> hub" where
  "disconnect h sid =
     h\<lparr>activeSubscriptions :=
          cleanup_topic h sid GasPrice (cleanup_topic h sid Blocks
            (cleanup_topic h sid PendingTxs (cleanup_topic h sid Balances (activeSubscriptions h)))),
       requests := (requests h)
          (sid := (\<lambda>key. if prefix sid key then None else requests h sid key))\<rparr>"

text \<open>The messages a connection sends, and the states the hub can reach.\<close>

datatype request =
    SubscribeBalance string
  | SubscribeTransaction string
  | SubscribeBlocks string string
  | SubscribeGasPrice string string
  | UnsubscribeBalance string
  | UnsubscribeTransaction string
  | UnsubscribeBlocks string string
  | UnsubscribeGasPrice string string
  | Disconnect

fun handle ::
  "(string \<Rightarrow> string \<Rightarrow> bool) \<Rightarrow> hub \<Rightarrow> string \<Rightarrow> int \<Rightarrow> request \<Rightarrow> hub \<times> emitted list" where
  "handle ok h sid now (SubscribeBalance address) = subscribe_balance h sid now address"
| "handle ok h sid now (SubscribeTransaction txHash) = subscribe_transaction h sid now txHash"
| "handle ok h sid now (SubscribeBlocks network networkType) =
     subscribe_blocks ok h sid now network networkType"
| "handle ok h sid now (SubscribeGasPrice network networkType) =
     subscribe_gasPrice h sid now network networkType"
| "handle ok h sid now (UnsubscribeBalance address) = (unsubscribe_balance h sid address, [])"
| "handle ok h sid now (UnsubscribeTransaction txHash) =
     (unsubscribe_transaction h sid txHash, [])"
| "handle ok h sid now (UnsubscribeBlocks network networkType) =
     (unsubscribe_blocks h sid network networkType, [])"
| "handle ok h sid now (UnsubscribeGasPrice network networkType) =
     (unsubscribe_gasPrice h sid network networkType, [])"
| "handle ok h sid now Disconnect = (disconnect h sid, [])"

text \<open>The event type a subscribe handler passes to \<^verbatim>\<open>isRateLimited\<close>.\<close>

fun eventType :: "request \<Rightarrow> string option" where
  "eventType (SubscribeBalance address) = Some ''subscribe:balance''"
| "eventType (SubscribeTransaction txHash) = Some ''subscribe:transaction''"
| "eventType (SubscribeBlocks network networkType) = Some ''subscribe:blocks''"
| "eventType (SubscribeGasPrice network networkType) = Some ''subscribe:gasPrice''"
| "eventType req = None"

inductive reachable :: "(string \<Rightarrow> string \<Rightarrow> bool) \<Rightarrow> hub \<Rightarrow> bool"
  for ok :: "string \<Rightarrow> string \<Rightarrow> bool" where
  start: "reachable ok initial_hub"
| step: "reachable ok h \<Longrightarrow> reachable ok (fst (handle ok h sid now req))"

definition subscribers :: "hub \<Rightarrow> topic \<Rightarrow> string \<Rightarrow> string set" where
  "subscribers h t key = (case activeSubscriptions h t key of None \<Rightarrow> {} | Some s \<Rightarrow> set s)"

text \<open>
  The reverse index is complete: a socket id in the set of a key has that key in its own set.
\<close>

definition index_complete :: "hub \<Rightarrow> bool" where
  "index_complete h =
     (\<forall>t key s c. activeSubscriptions h t key = Some s \<longrightarrow> c \<in> set s \<longrightarrow>
        key \<in> set (clientSubscriptions h c t))"

lemma set_set_add [simp]: "set (set_add x xs) = insert x (set xs)"
  by (auto simp: set_add_def)

lemma set_set_delete [simp]: "set (set_delete x xs) = set xs - {x}"
  by (simp add: set_delete_def)

lemma isRateLimited_subscriptions [simp]:
  "activeSubscriptions (snd (isRateLimited h sid now ev)) = activeSubscriptions h"
  "clientSubscriptions (snd (isRateLimited h sid now ev)) = clientSubscriptions h"
  by (simp_all add: isRateLimited_def Let_def)

lemma isRateLimited_index:
  "index_complete h \<Longrightarrow> index_complete (snd (isRateLimited h sid now ev))"
  by (simp add: index_complete_def)

lemma register_index:
  assumes "index_complete h"
  shows "index_complete (register h sid t key)"
proof (cases "activeSubscriptions h t key")
  case None
  with assms show ?thesis
    unfolding index_complete_def register_def by (auto split: if_splits)
next
  case (Some s)
  with assms show ?thesis
    unfolding index_complete_def register_def by (auto split: if_splits)
qed

lemma unregister_index:
  assumes "index_complete h"
  shows "index_complete (unregister h sid t key)"
proof (cases "activeSubscriptions h t key")
  case None
  with assms show ?thesis by (simp add: unregister_def)
next
  case (Some s)
  with assms show ?thesis
    unfolding index_complete_def unregister_def
    by (auto split: if_splits)
qed

definition cleaned :: "string \<Rightarrow> string list option \<Rightarrow> string list option" where
  "cleaned sid x =
     (case x of None \<Rightarrow> None
      | Some s \<Rightarrow> if set_delete sid s = [] then None else Some (set_delete sid s))"

lemma cleaned_idem: "cleaned sid (cleaned sid x) = cleaned sid x"
  by (auto simp: cleaned_def set_delete_def split: option.splits)

lemma cleanup_key_apply:
  "cleanup_key sid t key act t' key' =
     (if t' = t \<and> key' = key then cleaned sid (act t key) else act t' key')"
  by (auto simp: cleanup_key_def cleaned_def split: option.splits)

lemma fold_cleanup_key:
  "fold (cleanup_key sid t) ks act t' key =
     (if t' = t \<and> key \<in> set ks then cleaned sid (act t key) else act t' key)"
proof (induction ks arbitrary: act)
  case Nil
  then show ?case by simp
next
  case (Cons k ks)
  have "fold (cleanup_key sid t) (k # ks) act t' key
          = fold (cleanup_key sid t) ks (cleanup_key sid t k act) t' key"
    by simp
  also have "\<dots> = (if t' = t \<and> key \<in> set ks then cleaned sid (cleanup_key sid t k act t key)
                     else cleanup_key sid t k act t' key)"
    by (rule Cons.IH)
  also have "\<dots> = (if t' = t \<and> key \<in> set (k # ks) then cleaned sid (act t key) else act t' key)"
    by (auto simp: cleanup_key_apply cleaned_idem)
  finally show ?case .
qed

lemma disconnect_active:
  "activeSubscriptions (disconnect h sid) t key =
     (if key \<in> set (clientSubscriptions h sid t) then cleaned sid (activeSubscriptions h t key)
      else activeSubscriptions h t key)"
  by (cases t) (simp_all add: disconnect_def cleanup_topic_def fold_cleanup_key)

lemma disconnect_clientSubscriptions [simp]:
  "clientSubscriptions (disconnect h sid) = clientSubscriptions h"
  by (simp add: disconnect_def)

lemma disconnect_shrinks:
  assumes "activeSubscriptions (disconnect h sid) t key = Some s"
  shows "\<exists>s0. activeSubscriptions h t key = Some s0 \<and> set s \<subseteq> set s0"
  using assms
  by (cases "activeSubscriptions h t key")
    (auto simp: disconnect_active cleaned_def split: if_splits)

lemma disconnect_index:
  assumes "index_complete h"
  shows "index_complete (disconnect h sid)"
  unfolding index_complete_def
proof (intro allI impI)
  fix t key s c
  assume a: "activeSubscriptions (disconnect h sid) t key = Some s" "c \<in> set s"
  from disconnect_shrinks [OF a(1)] obtain s0 where
    "activeSubscriptions h t key = Some s0" "set s \<subseteq> set s0" by blast
  with a(2) assms have "key \<in> set (clientSubscriptions h c t)"
    unfolding index_complete_def by blast
  then show "key \<in> set (clientSubscriptions (disconnect h sid) c t)" by simp
qed

lemma subscribe_balance_index:
  "index_complete h \<Longrightarrow> index_complete (fst (subscribe_balance h sid now address))"
  by (simp add: subscribe_balance_def Let_def register_index isRateLimited_index)

lemma subscribe_transaction_index:
  "index_complete h \<Longrightarrow> index_complete (fst (subscribe_transaction h sid now txHash))"
  by (simp add: subscribe_transaction_def Let_def register_index isRateLimited_index)

lemma subscribe_gasPrice_index:
  "index_complete h \<Longrightarrow> index_complete (fst (subscribe_gasPrice h sid now n nt))"
  by (simp add: subscribe_gasPrice_def Let_def register_index isRateLimited_index)

lemma empty_set_index:
  "index_complete h \<Longrightarrow>
   index_complete (h\<lparr>activeSubscriptions := (activeSubscriptions h)
      (t := (activeSubscriptions h t)(key \<mapsto> []))\<rparr>)"
  unfolding index_complete_def by (auto split: if_splits)

lemma subscribe_blocks_index:
  assumes "index_complete h"
  shows "index_complete (fst (subscribe_blocks ok h sid now n nt))"
proof -
  let ?h1 = "snd (isRateLimited h sid now ''subscribe:blocks'')"
  have h1: "index_complete ?h1" using assms by (rule isRateLimited_index)
  note e = empty_set_index [OF h1, of Blocks "n @ '':'' @ nt"]
  note r = register_index [OF h1, of sid Blocks "n @ '':'' @ nt"]
  show ?thesis
    unfolding subscribe_blocks_def Let_def using h1 e r
    by (simp split: option.splits)
qed

lemma handle_index: "index_complete h \<Longrightarrow> index_complete (fst (handle ok h sid now req))"
  by (cases req)
    (simp_all add: subscribe_balance_index subscribe_transaction_index subscribe_blocks_index
      subscribe_gasPrice_index unsubscribe_balance_def unsubscribe_transaction_def
      unsubscribe_blocks_def unsubscribe_gasPrice_def unregister_index disconnect_index)

lemma reachable_index: "reachable ok h \<Longrightarrow> index_complete h"
proof (induction rule: reachable.induct)
  case start
  show ?case by (simp add: index_complete_def initial_hub_def)
next
  case (step h sid now req)
  then show ?case by (simp add: handle_index)
qed

lemma set_delete_empty: "set_delete x xs = [] \<longleftrightarrow> set xs \<subseteq> {x}"
  by (induction xs) (auto simp: set_delete_def)

lemma subscribers_disconnect:
  assumes "index_complete h"
  shows "subscribers (disconnect h sid) t key = subscribers h t key - {sid}"
proof (cases "activeSubscriptions h t key")
  case None
  then show ?thesis by (simp add: subscribers_def disconnect_active cleaned_def)
next
  case (Some s)
  show ?thesis
  proof (cases "key \<in> set (clientSubscriptions h sid t)")
    case True
    with Some show ?thesis
      by (auto simp: subscribers_def disconnect_active cleaned_def set_delete_empty)
  next
    case False
    with assms Some have "sid \<notin> set s" unfolding index_complete_def by blast
    with False Some show ?thesis by (simp add: subscribers_def disconnect_active)
  qed
qed

lemma disconnect_deletes_empty:
  assumes "index_complete h" and "subscribers h t key = {sid}"
  shows "activeSubscriptions (disconnect h sid) t key = None"
proof -
  from assms(2) obtain s where s: "activeSubscriptions h t key = Some s" "set s = {sid}"
    by (auto simp: subscribers_def split: option.splits)
  with assms(1) have "key \<in> set (clientSubscriptions h sid t)"
    unfolding index_complete_def by auto
  with s show ?thesis by (simp add: disconnect_active cleaned_def set_delete_empty)
qed

text \<open>
  An example state: the connections \<open>c1\<close> and \<open>c2\<close> follow the balance of one address, and
  \<open>c1\<close> alone follows the blocks of one network.
\<close>

definition hub_example :: hub where
  "hub_example =
     fst (handle (\<lambda>network networkType. True)
       (fst (handle (\<lambda>network networkType. True)
          (fst (handle (\<lambda>network networkType. True) initial_hub ''c1'' 1
             (SubscribeBalance ''0xabc'')))
          ''c2'' 2 (SubscribeBalance ''0xabc'')))
       ''c1'' 3 (SubscribeBlocks ''ethereum'' ''mainnet''))"

lemma hub_example_reachable: "reachable (\<lambda>network networkType. True) hub_example"
  unfolding hub_example_def by (intro reachable.step reachable.start)

lemmas hub_eval = initial_hub_def subscribe_balance_def subscribe_blocks_def isRateLimited_def
  register_def unregister_def unsubscribe_balance_def set_add_def set_delete_def
  maxRequests_def timeWindow_def Let_def

lemma hub_example_eval:
  "activeSubscriptions hub_example Balances ''0xabc'' = Some [''c1'', ''c2'']"
  "activeSubscriptions hub_example Blocks ''ethereum:mainnet'' = Some [''c1'']"
  "clientSubscriptions hub_example ''c1'' Balances = [''0xabc'']"
  "clientSubscriptions hub_example ''c1'' Blocks = [''ethereum:mainnet'']"
  by (simp_all add: hub_example_def hub_eval)

text \<open>
  Claim C5. In every state the hub can reach, the disconnect handler of a connection removes
  its socket id from the subscriber set of every topic and key, deletes a subscriber set
  whose only member it was, and leaves the membership of every other socket id in every
  subscriber set as it was.
\<close>

theorem disconnect_removes_client:
  assumes "reachable ok h"
  shows "subscribers (disconnect h sid) t key = subscribers h t key - {sid}
       \<and> (subscribers h t key = {sid} \<longrightarrow> activeSubscriptions (disconnect h sid) t key = None)
       \<and> (\<forall>c. c \<noteq> sid \<longrightarrow>
             (c \<in> subscribers (disconnect h sid) t key \<longleftrightarrow> c \<in> subscribers h t key))"
proof -
  from assms have i: "index_complete h" by (rule reachable_index)
  have a: "subscribers (disconnect h sid) t key = subscribers h t key - {sid}"
    using i by (rule subscribers_disconnect)
  have b: "subscribers h t key = {sid} \<longrightarrow> activeSubscriptions (disconnect h sid) t key = None"
    using i disconnect_deletes_empty by blast
  from a b show ?thesis by auto
qed

theorem disconnect_removes_client_witness:
  "reachable (\<lambda>network networkType. True) hub_example
   \<and> subscribers hub_example Blocks ''ethereum:mainnet'' = {''c1''}
   \<and> subscribers (disconnect hub_example ''c1'') Blocks ''ethereum:mainnet'' = {}
   \<and> activeSubscriptions (disconnect hub_example ''c1'') Blocks ''ethereum:mainnet'' = None
   \<and> subscribers (disconnect hub_example ''c1'') Balances ''0xabc'' = {''c2''}"
  using disconnect_removes_client [OF hub_example_reachable, of "''c1''" Blocks "''ethereum:mainnet''"]
    disconnect_removes_client [OF hub_example_reachable, of "''c1''" Balances "''0xabc''"]
    hub_example_reachable
  by (auto simp: subscribers_def hub_example_eval)

text \<open>
  Claim C1. What the code does for the sole subscriber of a key: the unsubscribe handlers
  remove the socket id from the subscriber set and the key from the connection's own set,
  and the registry keeps the key with an empty set. Only the disconnect handler deletes a
  set that has become empty.
\<close>

theorem unsubscribe_keeps_empty_set:
  assumes "activeSubscriptions h t key = Some [sid]"
  shows "activeSubscriptions (unregister h sid t key) t key = Some []
       \<and> key \<notin> set (clientSubscriptions (unregister h sid t key) sid t)"
  using assms by (simp add: unregister_def set_delete_def)

theorem unsubscribe_keeps_empty_set_witness:
  "activeSubscriptions initial_hub Balances ''0xabc'' = None
   \<and> activeSubscriptions (fst (subscribe_balance initial_hub ''c1'' 1 ''0xabc'')) Balances ''0xabc''
       = Some [''c1'']
   \<and> activeSubscriptions (unsubscribe_balance (fst (subscribe_balance initial_hub ''c1'' 1 ''0xabc''))
         ''c1'' ''0xabc'') Balances ''0xabc'' = Some []
   \<and> clientSubscriptions (unsubscribe_balance (fst (subscribe_balance initial_hub ''c1'' 1 ''0xabc''))
         ''c1'' ''0xabc'') ''c1'' Balances = []
   \<and> activeSubscriptions (disconnect (fst (subscribe_balance initial_hub ''c1'' 1 ''0xabc'')) ''c1'')
         Balances ''0xabc'' = None"
  using unsubscribe_keeps_empty_set [of "fst (subscribe_balance initial_hub ''c1'' 1 ''0xabc'')"
      Balances "''0xabc''" "''c1''"]
  by (simp add: disconnect_active cleaned_def hub_eval)

text \<open>
  The timestamps that \<^verbatim>\<open>isRateLimited\<close> finds inside the window at time \<open>now\<close>, for a
  connection and an event type.
\<close>

definition recorded_in_window :: "hub \<Rightarrow> string \<Rightarrow> int \<Rightarrow> string \<Rightarrow> int list" where
  "recorded_in_window h sid now ev =
     filter (\<lambda>timestamp. now - timestamp < 60000)
       (case requests h sid (sid @ '':'' @ ev) of None \<Rightarrow> [] | Some ts \<Rightarrow> ts)"

lemma isRateLimited_result:
  "isRateLimited h sid now ev =
     (if 60 \<le> length (recorded_in_window h sid now ev)
      then (True, h\<lparr>requests := (requests h)
              (sid := (requests h sid)(sid @ '':'' @ ev \<mapsto> recorded_in_window h sid now ev))\<rparr>)
      else (False, h\<lparr>requests := (requests h)
              (sid := (requests h sid)
                 (sid @ '':'' @ ev \<mapsto> recorded_in_window h sid now ev @ [now]))\<rparr>))"
  by (simp add: isRateLimited_def recorded_in_window_def maxRequests_def timeWindow_def Let_def)

text \<open>
  Claim C6. With the window of 60 seconds and the limit of 60, for every connection and
  every subscribe request: when 60 recorded timestamps of the connection and event type lie
  inside the window, the handler emits the error event to the requester and nothing else,
  leaves every subscription as it was, and records nothing (the list kept is those
  timestamps, without the new one); when fewer than 60 lie inside the window, the request is
  recorded and is not rejected by the limiter.
\<close>

theorem rate_limit_window:
  assumes "eventType req = Some ev"
  shows "(60 \<le> length (recorded_in_window h sid now ev) \<longrightarrow>
            fst (isRateLimited h sid now ev)
            \<and> snd (handle ok h sid now req) = [rate_limit_error]
            \<and> activeSubscriptions (fst (handle ok h sid now req)) = activeSubscriptions h
            \<and> clientSubscriptions (fst (handle ok h sid now req)) = clientSubscriptions h
            \<and> requests (fst (handle ok h sid now req)) sid (sid @ '':'' @ ev)
                = Some (recorded_in_window h sid now ev))
       \<and> (length (recorded_in_window h sid now ev) < 60 \<longrightarrow>
            \<not> fst (isRateLimited h sid now ev)
            \<and> rate_limit_error \<notin> set (snd (handle ok h sid now req))
            \<and> requests (fst (handle ok h sid now req)) sid (sid @ '':'' @ ev)
                = Some (recorded_in_window h sid now ev @ [now]))"
  using assms
  by (cases req)
    (auto simp: isRateLimited_result subscribe_balance_def subscribe_transaction_def
      subscribe_blocks_def subscribe_gasPrice_def register_def rate_limit_error_def Let_def
      split: option.splits)

definition limiter_example :: hub where
  "limiter_example =
     initial_hub\<lparr>requests := (requests initial_hub)
        (''c1'' := [''c1:subscribe:balance'' \<mapsto> replicate 60 0])\<rparr>"

theorem rate_limit_window_witness:
  "length (recorded_in_window limiter_example ''c1'' 59999 ''subscribe:balance'') = 60
   \<and> snd (handle (\<lambda>network networkType. True) limiter_example ''c1'' 59999
          (SubscribeBalance ''0xabc'')) = [rate_limit_error]
   \<and> subscribers (fst (handle (\<lambda>network networkType. True) limiter_example ''c1'' 59999
          (SubscribeBalance ''0xabc'')))
        Balances ''0xabc'' = {}
   \<and> length (recorded_in_window limiter_example ''c1'' 60000 ''subscribe:balance'') = 0
   \<and> snd (handle (\<lambda>network networkType. True) limiter_example ''c1'' 60000
          (SubscribeBalance ''0xabc'')) = []
   \<and> subscribers (fst (handle (\<lambda>network networkType. True) limiter_example ''c1'' 60000
          (SubscribeBalance ''0xabc'')))
        Balances ''0xabc'' = {''c1''}"
  using rate_limit_window [of "SubscribeBalance ''0xabc''" "''subscribe:balance''" limiter_example
      "''c1''" 59999 "\<lambda>network networkType. True"]
    rate_limit_window [of "SubscribeBalance ''0xabc''" "''subscribe:balance''" limiter_example
      "''c1''" 60000 "\<lambda>network networkType. True"]
  by (simp add: recorded_in_window_def limiter_example_def initial_hub_def subscribers_def
      subscribe_balance_def isRateLimited_result register_def set_add_def Let_def)

end
